theory Spec2Isabelle
  imports Main "HOL-Library.Multiset"
begin

section \<open>Data model\<close>

text \<open>
  The service \<^verbatim>\<open>ChatService\<close> of \<^verbatim>\<open>apps/api/src/chat/chat.service.ts\<close> works on two
  Prisma tables. A row of the \<^verbatim>\<open>chat\<close> table is a \<open>Chat\<close>; only the columns the
  service reads are listed (the record is extensible). The TypeScript field \<^verbatim>\<open>id\<close> is
  called \<open>chat_id\<close> here, since \<open>id\<close> is the identity function of HOL. The column
  \<^verbatim>\<open>createdAt\<close> is a JavaScript \<^verbatim>\<open>Date\<close>, modelled by its integer time value.
\<close>

datatype ChatVisibilityType = PRIVATE | PUBLIC

record Chat =
  chat_id :: string
  userId :: string
  projectId :: string
  visibility :: ChatVisibilityType
  createdAt :: int

text \<open>
  The argument object of \<^verbatim>\<open>getChatsByUserId\<close>. The fields \<^verbatim>\<open>id\<close> and \<^verbatim>\<open>projectId\<close> are
  called \<open>callerId\<close> and \<open>project\<close>, the columns of \<open>Chat\<close> keeping the source's
  names. \<^verbatim>\<open>limit\<close> is a TypeScript \<^verbatim>\<open>number\<close>, taken as an integer of any sign. The two
  cursors have type \<^verbatim>\<open>string | null | undefined\<close>: \<open>None\<close> stands for both
  \<^verbatim>\<open>null\<close> and \<^verbatim>\<open>undefined\<close>.
\<close>

record PaginationParams =
  callerId :: string
  project :: string
  limit :: int
  startingAfter :: "string option"
  endingBefore :: "string option"

text \<open>The object returned by \<^verbatim>\<open>getChatsByUserId\<close>.\<close>

record ChatPage =
  chats :: "Chat list"
  hasMore :: bool

text \<open>
  JavaScript exceptions, by class, with their message. \<open>Error\<close> is the plain
  \<^verbatim>\<open>new Error(msg)\<close> of the service; \<open>SyntaxError\<close> and \<open>TypeError\<close> are raised by the
  runtime itself.
\<close>

datatype error = Error string | SyntaxError string | TypeError string

section \<open>The record store\<close>

text \<open>
  The \<^verbatim>\<open>chat\<close> table is the list of its rows. \<^verbatim>\<open>findUnique({where: {id}})\<close> returns the row
  with that id, or \<^verbatim>\<open>null\<close>.
\<close>

definition findUnique :: "Chat list \<Rightarrow> string \<Rightarrow> Chat option" where
  "findUnique store i = List.find (\<lambda>c. chat_id c = i) store"

text \<open>
  \<^verbatim>\<open>orderBy: {createdAt: 'desc'}\<close>: newest first. Rows with equal \<^verbatim>\<open>createdAt\<close> come in an
  order the database chooses; the model keeps their table order (the sort is stable).
\<close>

definition orderByCreatedAtDesc :: "Chat list \<Rightarrow> Chat list" where
  "orderByCreatedAtDesc rows = sort_key (\<lambda>c. - createdAt c) rows"

text \<open>
  Prisma's \<^verbatim>\<open>take: n\<close>: the first \<open>n\<close> rows of the ordered result for \<open>n \<ge> 0\<close>, the last
  \<open>- n\<close> rows, in the same order, for a negative \<open>n\<close>.
\<close>

definition prisma_take :: "int \<Rightarrow> 'a list \<Rightarrow> 'a list" where
  "prisma_take n rows =
     (if 0 \<le> n then take (nat n) rows else drop (length rows - nat (- n)) rows)"

text \<open>\<^verbatim>\<open>findMany({where, orderBy: {createdAt: 'desc'}, take})\<close> on the \<^verbatim>\<open>chat\<close> table.\<close>

definition findMany :: "Chat list \<Rightarrow> (Chat \<Rightarrow> bool) \<Rightarrow> int \<Rightarrow> Chat list" where
  "findMany store wher n = prisma_take n (orderByCreatedAtDesc (filter wher store))"

section \<open>Cursor pagination: \<^verbatim>\<open>getChatsByUserId\<close>\<close>

text \<open>
  \<^verbatim>\<open>if (startingAfter)\<close> tests truthiness: \<^verbatim>\<open>null\<close>, \<^verbatim>\<open>undefined\<close> and the empty string
  all take the else branch. \<open>truthy\<close> returns the cursor when the test succeeds.
\<close>

definition truthy :: "string option \<Rightarrow> string option" where
  "truthy s = (case s of None \<Rightarrow> None | Some x \<Rightarrow> if x = [] then None else Some x)"

text \<open>
  \<^verbatim>\<open>baseWhere = {OR: [{userId: id, projectId}, {visibility: PUBLIC, projectId}]}\<close>
\<close>

definition baseWhere :: "string \<Rightarrow> string \<Rightarrow> Chat \<Rightarrow> bool" where
  "baseWhere i p c \<longleftrightarrow>
     (userId c = i \<and> projectId c = p) \<or> (visibility c = PUBLIC \<and> projectId c = p)"

text \<open>
  \<^verbatim>\<open>chats.slice(0, end)\<close>: a negative \<^verbatim>\<open>end\<close> counts from the end of the array.
\<close>

definition slice0 :: "'a list \<Rightarrow> int \<Rightarrow> 'a list" where
  "slice0 xs e = (if e < 0 then take (nat (int (length xs) + e)) xs else take (nat e) xs)"

text \<open>
  The end of the function, lines 122 to 127:
  \<^verbatim>\<open>const hasMore = chats.length > limit;
  return {chats: hasMore ? chats.slice(0, limit) : chats, hasMore};\<close>
\<close>

definition trimPage :: "int \<Rightarrow> Chat list \<Rightarrow> ChatPage" where
  "trimPage lim rows =
     (let more = (int (length rows) > lim)
      in \<lparr>chats = (if more then slice0 rows lim else rows), hasMore = more\<rparr>)"

text \<open>
  The body of the \<^verbatim>\<open>try\<close> block, lines 57 to 127. The three branches issue the three
  \<^verbatim>\<open>findMany\<close> calls of the source; an unresolved cursor throws
  \<^verbatim>\<open>new Error(`Chat with id ${cursor} not found`)\<close>. The store is taken as reliable
  (its calls return), as the specification does.
\<close>

definition notFound :: "string \<Rightarrow> error" where
  "notFound i = Error (''Chat with id '' @ i @ '' not found'')"

definition getChatsByUserId_try :: "Chat list \<Rightarrow> PaginationParams \<Rightarrow> error + ChatPage" where
  "getChatsByUserId_try store a =
     (let extendedLimit = limit a + 1;
          base = baseWhere (callerId a) (project a)
      in case truthy (startingAfter a) of
           Some sa \<Rightarrow>
             (case findUnique store sa of
                None \<Rightarrow> Inl (notFound sa)
              | Some cursorChat \<Rightarrow>
                  Inr (trimPage (limit a)
                    (findMany store (\<lambda>c. base c \<and> createdAt c > createdAt cursorChat)
                       extendedLimit)))
         | None \<Rightarrow>
             (case truthy (endingBefore a) of
                Some eb \<Rightarrow>
                  (case findUnique store eb of
                     None \<Rightarrow> Inl (notFound eb)
                   | Some cursorChat \<Rightarrow>
                       Inr (trimPage (limit a)
                         (findMany store (\<lambda>c. base c \<and> createdAt c < createdAt cursorChat)
                            extendedLimit)))
              | None \<Rightarrow> Inr (trimPage (limit a) (findMany store base extendedLimit))))"

text \<open>
  The \<^verbatim>\<open>catch\<close> block, lines 128 to 131, writes one line to the console and throws the
  error it caught: the caller receives the same error.
\<close>

definition getChatsByUserId :: "Chat list \<Rightarrow> PaginationParams \<Rightarrow> error + ChatPage" where
  "getChatsByUserId store a =
     (case getChatsByUserId_try store a of
        Inl e \<Rightarrow> Inl e
      | Inr page \<Rightarrow> Inr page)"

text \<open>
  The rows a call selects, in the words of the specification: the visibility predicate,
  and the cursor constraint when a cursor is given and resolves. This is the reference
  the properties of pages are stated against.
\<close>

definition matching :: "Chat list \<Rightarrow> PaginationParams \<Rightarrow> Chat \<Rightarrow> bool" where
  "matching store a c \<longleftrightarrow>
     projectId c = project a \<and> (userId c = callerId a \<or> visibility c = PUBLIC) \<and>
     (case truthy (startingAfter a) of
        Some sa \<Rightarrow> (case findUnique store sa of
                      None \<Rightarrow> False | Some x \<Rightarrow> createdAt x < createdAt c)
      | None \<Rightarrow>
          (case truthy (endingBefore a) of
             Some eb \<Rightarrow> (case findUnique store eb of
                           None \<Rightarrow> False | Some x \<Rightarrow> createdAt c < createdAt x)
           | None \<Rightarrow> True))"

section \<open>Messages and JavaScript values\<close>

text \<open>
  A row of the \<^verbatim>\<open>chatMessages\<close> table, with the columns the service reads. The column
  \<^verbatim>\<open>createdAt\<close> is called \<open>sentAt\<close> here (the name \<open>createdAt\<close> is the column of
  \<open>Chat\<close>); \<^verbatim>\<open>parts\<close> is the JSON text of the content segments.
\<close>

record ChatMessages =
  message_id :: string
  chatId :: string
  role :: string
  parts :: string
  sentAt :: int

text \<open>
  The values \<^verbatim>\<open>JSON.parse\<close> returns and the objects the export builds. An object is the
  list of its properties, one binding per key. Numbers play no part in the service and
  are kept as integers.
\<close>

datatype jsval =
    Undefined
  | Null
  | Bool bool
  | Num int
  | Str string
  | Arr "jsval list"
  | Obj "(string \<times> jsval) list"

text \<open>
  What the service does not contain and calls: the host's temporary directory and
  \<^verbatim>\<open>path.join\<close>, \<^verbatim>\<open>JSON.parse\<close> (which throws on text that is not JSON), and the outcome
  of the calls that can fail outside the service: the message query of the store, the
  append of an entry to the archive (by entry name), and \<^verbatim>\<open>archive.finalize()\<close>. A fault
  \<open>Some e\<close> means that the call throws \<open>e\<close>. The last field is the one point where the
  order of two events is not fixed by the service: the write stream opens its file on
  its own, and when the \<^verbatim>\<open>try\<close> block throws, that open has either landed before the
  \<^verbatim>\<open>unlink\<close> of the \<^verbatim>\<open>catch\<close> block runs (\<open>openLandsFirst\<close>) or lands after it.
\<close>

record env =
  tmpdir :: string
  path_join :: "string \<Rightarrow> string \<Rightarrow> string"
  JSON_parse :: "string \<Rightarrow> error + jsval"
  fetchFault :: "error option"
  addFault :: "string \<Rightarrow> error option"
  finalizeFault :: "error option"
  openLandsFirst :: bool

text \<open>
  Reading a property \<^verbatim>\<open>v.k\<close>. On \<^verbatim>\<open>undefined\<close> and \<^verbatim>\<open>null\<close> it throws a \<^verbatim>\<open>TypeError\<close>; on an
  object it gives the property, or \<^verbatim>\<open>undefined\<close> when the object has none of that name; on
  an array, a string, a number or a boolean it gives \<^verbatim>\<open>undefined\<close> for every name that is
  not built in, as \<^verbatim>\<open>type\<close> and \<^verbatim>\<open>text\<close>, the two names the service reads.
\<close>

definition reading :: "string \<Rightarrow> string" where
  "reading k = ''(reading '' @ [CHR 0x27] @ k @ [CHR 0x27] @ '')''"

fun getProp :: "jsval \<Rightarrow> string \<Rightarrow> error + jsval" where
  "getProp Undefined k =
     Inl (TypeError (''Cannot read properties of undefined '' @ reading k))"
| "getProp Null k =
     Inl (TypeError (''Cannot read properties of null '' @ reading k))"
| "getProp (Obj kvs) k = Inr (case map_of kvs k of None \<Rightarrow> Undefined | Some v \<Rightarrow> v)"
| "getProp v k = Inr Undefined"

text \<open>
  \<^verbatim>\<open>Array.prototype.find\<close> and \<^verbatim>\<open>Array.prototype.map\<close> with a callback that may throw:
  the first exception ends the traversal.
\<close>

fun array_find :: "(jsval \<Rightarrow> error + bool) \<Rightarrow> jsval list \<Rightarrow> error + jsval" where
  "array_find f [] = Inr Undefined"
| "array_find f (x # xs) =
     (case f x of
        Inl e \<Rightarrow> Inl e
      | Inr b \<Rightarrow> if b then Inr x else array_find f xs)"

fun array_map :: "('a \<Rightarrow> error + 'b) \<Rightarrow> 'a list \<Rightarrow> error + 'b list" where
  "array_map f [] = Inr []"
| "array_map f (x # xs) =
     (case f x of
        Inl e \<Rightarrow> Inl e
      | Inr y \<Rightarrow> (case array_map f xs of Inl e \<Rightarrow> Inl e | Inr ys \<Rightarrow> Inr (y # ys)))"

section \<open>Export: \<^verbatim>\<open>getMessagesByChatId\<close> and \<^verbatim>\<open>exportChatDataset\<close>\<close>

text \<open>
  \<^verbatim>\<open>findMany({where: {chatId: id}, orderBy: {createdAt: 'asc'}})\<close> on the message table:
  oldest first, rows of equal time in table order. The \<^verbatim>\<open>catch\<close> of lines 48 to 51 throws
  what it caught.
\<close>

definition getMessagesByChatId ::
  "env \<Rightarrow> ChatMessages list \<Rightarrow> string \<Rightarrow> error + ChatMessages list" where
  "getMessagesByChatId ev messages i =
     (case fetchFault ev of
        Some e \<Rightarrow> Inl e
      | None \<Rightarrow> Inr (sort_key sentAt (filter (\<lambda>m. chatId m = i) messages)))"

text \<open>The callback \<^verbatim>\<open>part => part.type === 'text'\<close>.\<close>

definition isTextPart :: "jsval \<Rightarrow> error + bool" where
  "isTextPart part =
     (case getProp part ''type'' of
        Inl e \<Rightarrow> Inl e
      | Inr t \<Rightarrow> Inr (t = Str ''text''))"

text \<open>
  The call \<^verbatim>\<open>parts.find(...)\<close>: only an array has a method \<^verbatim>\<open>find\<close>. A property \<^verbatim>\<open>find\<close> of
  a parsed object is a JSON value, never a function.
\<close>

fun parts_find :: "jsval \<Rightarrow> error + jsval" where
  "parts_find (Arr ps) = array_find isTextPart ps"
| "parts_find Undefined =
     Inl (TypeError (''Cannot read properties of undefined '' @ reading ''find''))"
| "parts_find Null =
     Inl (TypeError (''Cannot read properties of null '' @ reading ''find''))"
| "parts_find v = Inl (TypeError ''parts.find is not a function'')"

text \<open>
  The callback of \<^verbatim>\<open>chatData.map\<close>, lines 211 to 217:
  \<^verbatim>\<open>const parts = JSON.parse(item.parts);
  return {from: item.role === 'user' ? 'human' : 'gpt',
          value: parts.find(part => part.type === 'text').text};\<close>
\<close>

definition formatItem :: "env \<Rightarrow> ChatMessages \<Rightarrow> error + jsval" where
  "formatItem ev item =
     (case JSON_parse ev (parts item) of
        Inl e \<Rightarrow> Inl e
      | Inr ps \<Rightarrow>
          (case parts_find ps of
             Inl e \<Rightarrow> Inl e
           | Inr found \<Rightarrow>
               (case getProp found ''text'' of
                  Inl e \<Rightarrow> Inl e
                | Inr v \<Rightarrow>
                    Inr (Obj [(''from'', Str (if role item = ''user'' then ''human'' else ''gpt'')),
                              (''value'', v)]))))"

text \<open>
  The archive under construction is the list of its entries, each a name and the payload
  that was serialised into it. A file of the file system is either the partial output of
  a write stream or a finished zip archive with its entries.
\<close>

type_synonym archive = "(string \<times> jsval) list"

datatype file_content = Partial | Zip archive

type_synonym filesystem = "string \<Rightarrow> file_content option"

text \<open>
  Modelled from the spec: \<^verbatim>\<open>ExportUtil.addJsonToArchive\<close> of \<^verbatim>\<open>utils/export.util\<close>, which is
  not among the sources. Section 4.3: it serialises the payload and adds it as a named
  entry; it may be called several times with distinct names, a duplicate name being a
  caller error. The serialised text is represented by the payload itself.
\<close>

definition addJsonToArchive :: "env \<Rightarrow> archive \<Rightarrow> string \<Rightarrow> jsval \<Rightarrow> error + archive" where
  "addJsonToArchive ev ar name payload =
     (case addFault ev name of
        Some e \<Rightarrow> Inl e
      | None \<Rightarrow>
          if name \<in> set (map fst ar) then Inl (Error (''duplicate entry '' @ name))
          else Inr (ar @ [(name, payload)]))"

text \<open>
  \<^verbatim>\<open>createWriteStream(path)\<close>, line 203, returns its stream at once and touches no file: the
  stream opens its file later, from the event loop, and \<open>openStream\<close> is the effect of
  that open when it lands (the file is created, or emptied when it is there). The
  service does not wait for the open, and it never closes or destroys the stream, so a
  pending open always lands. \<^verbatim>\<open>archive.finalize()\<close> completes the archive piped through the
  stream, which has opened its file by then. \<^verbatim>\<open>fs.unlink\<close> fails on a missing file, and
  \<^verbatim>\<open>.catch(() => null)\<close> drops that failure.
\<close>

definition openStream :: "filesystem \<Rightarrow> string \<Rightarrow> filesystem" where
  "openStream files path = files(path \<mapsto> Partial)"

definition finalize :: "env \<Rightarrow> archive \<Rightarrow> filesystem \<Rightarrow> string \<Rightarrow> error + filesystem" where
  "finalize ev ar files path =
     (case finalizeFault ev of
        Some e \<Rightarrow> Inl e
      | None \<Rightarrow> Inr (files(path \<mapsto> Zip ar)))"

definition unlink :: "filesystem \<Rightarrow> string \<Rightarrow> error + filesystem" where
  "unlink files path =
     (if files path = None
      then Inl (Error (''ENOENT: no such file or directory, unlink '' @ path))
      else Inr (files(path := None)))"

definition unlink_quiet :: "filesystem \<Rightarrow> string \<Rightarrow> filesystem" where
  "unlink_quiet files path =
     (case unlink files path of Inl e \<Rightarrow> files | Inr files' \<Rightarrow> files')"

record ExportResult =
  filePath :: string
  filename :: string

definition exportFilename :: "string \<Rightarrow> string \<Rightarrow> string" where
  "exportFilename p c = ''DatasetLoom-'' @ p @ ''-'' @ c @ ''.zip''"

definition datasetFilename :: "string \<Rightarrow> string" where
  "datasetFilename c = ''chat_'' @ c @ ''_dataset.json''"

definition datasetInfo :: "string \<Rightarrow> jsval" where
  "datasetInfo c =
     Obj [(''DatasetLoom'',
           Obj [(''file_name'', Str (datasetFilename c)),
                (''formatting'', Str ''sharegpt''),
                (''columns'', Obj [(''messages'', Str ''conversations'')])])]"

text \<open>
  The \<^verbatim>\<open>try\<close> block of \<^verbatim>\<open>exportChatDataset\<close>, lines 208 to 239. The file system it is
  given is read by its last step only, \<^verbatim>\<open>finalize\<close>, and is the one in which the stream has
  opened its file at \<open>zipPath\<close>. The test \<^verbatim>\<open>if (datasetInfo)\<close> is on an object and always
  succeeds.
\<close>

definition exportChatDataset_try ::
  "env \<Rightarrow> ChatMessages list \<Rightarrow> filesystem \<Rightarrow> string \<Rightarrow> string \<Rightarrow> error + filesystem" where
  "exportChatDataset_try ev messages files zipPath c =
     (case getMessagesByChatId ev messages c of
        Inl e \<Rightarrow> Inl e
      | Inr chatData \<Rightarrow>
          (case array_map (formatItem ev) chatData of
             Inl e \<Rightarrow> Inl e
           | Inr formattedData \<Rightarrow>
               (let dataset = Obj [(''conversations'', Arr formattedData)]
                in case addJsonToArchive ev [] (datasetFilename c) dataset of
                     Inl e \<Rightarrow> Inl e
                   | Inr ar1 \<Rightarrow>
                       (case addJsonToArchive ev ar1 ''dataset_info.json'' (datasetInfo c) of
                          Inl e \<Rightarrow> Inl e
                        | Inr ar2 \<Rightarrow> finalize ev ar2 files zipPath))))"

text \<open>
  \<^verbatim>\<open>exportChatDataset(projectId, chatId)\<close>: the final file system and the outcome. On an
  exception of the \<^verbatim>\<open>try\<close> block the \<^verbatim>\<open>catch\<close> of lines 240 to 243 unlinks the path and
  throws the exception it caught. If the open of the stream landed first, the unlink
  removes the stream's file. If not, the unlink finds the path as it was before the call
  (a missing file is no failure), and the open lands afterwards and creates the file.
  The object returned at line 239, at the end of the \<^verbatim>\<open>try\<close> block, is built here, with
  the file system the block leaves.
\<close>

definition exportChatDataset ::
  "env \<Rightarrow> ChatMessages list \<Rightarrow> filesystem \<Rightarrow> string \<Rightarrow> string \<Rightarrow>
     filesystem \<times> (error + ExportResult)" where
  "exportChatDataset ev messages files p c =
     (let name = exportFilename p c;
          zipPath = path_join ev (tmpdir ev) name
      in case exportChatDataset_try ev messages (openStream files zipPath) zipPath c of
           Inr files2 \<Rightarrow> (files2, Inr \<lparr>filePath = zipPath, filename = name\<rparr>)
         | Inl e \<Rightarrow>
             (if openLandsFirst ev then unlink_quiet (openStream files zipPath) zipPath
              else openStream (unlink_quiet files zipPath) zipPath,
              Inl e))"

text \<open>
  The words of the specification for the formatter: a segment of type \<open>text\<close>, the first
  such segment of a decoded parts sequence, and the text a segment carries.
\<close>

definition isTextSegment :: "jsval \<Rightarrow> bool" where
  "isTextSegment part =
     (case part of Obj kvs \<Rightarrow> map_of kvs ''type'' = Some (Str ''text'') | _ \<Rightarrow> False)"

definition firstTextSegment :: "jsval \<Rightarrow> jsval option" where
  "firstTextSegment v = (case v of Arr ps \<Rightarrow> List.find isTextSegment ps | _ \<Rightarrow> None)"

definition segmentText :: "jsval \<Rightarrow> jsval" where
  "segmentText part =
     (case part of
        Obj kvs \<Rightarrow> (case map_of kvs ''text'' of None \<Rightarrow> Undefined | Some v \<Rightarrow> v)
      | _ \<Rightarrow> Undefined)"

section \<open>Pagination: notions used by the properties\<close>

text \<open>
  Paginating forward from a cursor (\<^verbatim>\<open>startingAfter\<close>) and backward from a cursor
  (\<^verbatim>\<open>endingBefore\<close>), as calls of \<open>getChatsByUserId\<close>.
\<close>

definition pageAfter :: "Chat list \<Rightarrow> string \<Rightarrow> string \<Rightarrow> int \<Rightarrow> string \<Rightarrow> error + ChatPage" where
  "pageAfter store i p lim x =
     getChatsByUserId store
       \<lparr>callerId = i, project = p, limit = lim, startingAfter = Some x, endingBefore = None\<rparr>"

definition pageBefore :: "Chat list \<Rightarrow> string \<Rightarrow> string \<Rightarrow> int \<Rightarrow> string \<Rightarrow> error + ChatPage" where
  "pageBefore store i p lim x =
     getChatsByUserId store
       \<lparr>callerId = i, project = p, limit = lim, startingAfter = None, endingBefore = Some x\<rparr>"

text \<open>The cursor the call resolves, if it has one, names a stored chat.\<close>

definition cursorResolves :: "Chat list \<Rightarrow> PaginationParams \<Rightarrow> bool" where
  "cursorResolves store a \<longleftrightarrow>
     (case truthy (startingAfter a) of
        Some sa \<Rightarrow> findUnique store sa \<noteq> None
      | None \<Rightarrow>
          (case truthy (endingBefore a) of
             Some eb \<Rightarrow> findUnique store eb \<noteq> None
           | None \<Rightarrow> True))"

section \<open>Example data\<close>

text \<open>
  A store with two projects and two users. In project \<open>p1\<close> the user \<open>alice\<close> sees her
  chats \<open>a\<close>, \<open>e\<close>, \<open>f\<close> and the public chat \<open>b\<close> of \<open>bob\<close>.
\<close>

definition chat_a :: Chat where
  "chat_a = \<lparr>chat_id = ''a'', userId = ''alice'', projectId = ''p1'',
             visibility = PRIVATE, createdAt = 10\<rparr>"

definition chat_b :: Chat where
  "chat_b = \<lparr>chat_id = ''b'', userId = ''bob'', projectId = ''p1'',
             visibility = PUBLIC, createdAt = 20\<rparr>"

definition chat_c :: Chat where
  "chat_c = \<lparr>chat_id = ''c'', userId = ''bob'', projectId = ''p1'',
             visibility = PRIVATE, createdAt = 30\<rparr>"

definition chat_d :: Chat where
  "chat_d = \<lparr>chat_id = ''d'', userId = ''alice'', projectId = ''p2'',
             visibility = PUBLIC, createdAt = 40\<rparr>"

definition chat_e :: Chat where
  "chat_e = \<lparr>chat_id = ''e'', userId = ''alice'', projectId = ''p1'',
             visibility = PRIVATE, createdAt = 50\<rparr>"

definition chat_f :: Chat where
  "chat_f = \<lparr>chat_id = ''f'', userId = ''alice'', projectId = ''p1'',
             visibility = PUBLIC, createdAt = 60\<rparr>"

definition demo_store :: "Chat list" where
  "demo_store = [chat_c, chat_a, chat_f, chat_d, chat_b, chat_e]"

definition alice_p1 :: "int \<Rightarrow> string option \<Rightarrow> string option \<Rightarrow> PaginationParams" where
  "alice_p1 lim sa eb =
     \<lparr>callerId = ''alice'', project = ''p1'', limit = lim,
      startingAfter = sa, endingBefore = eb\<rparr>"

text \<open>Eight private chats of one user in one project, created at times 1 to 8.\<close>

definition k :: "string \<Rightarrow> int \<Rightarrow> Chat" where
  "k i t = \<lparr>chat_id = i, userId = ''alice'', projectId = ''p1'',
            visibility = PRIVATE, createdAt = t\<rparr>"

definition timeline :: "Chat list" where
  "timeline = [k ''k1'' 1, k ''k2'' 2, k ''k3'' 3, k ''k4'' 4,
               k ''k5'' 5, k ''k6'' 6, k ''k7'' 7, k ''k8'' 8]"

text \<open>
  Messages of three chats. Chat \<open>C1\<close> is the example of the specification: a user
  message \<open>hi\<close> and an assistant message \<open>hello\<close>, stored out of order. The message of
  \<open>C2\<close> has no text segment, and the parts of the message of \<open>C3\<close> are not JSON.
  \<open>demo_parse\<close> is \<^verbatim>\<open>JSON.parse\<close> on the four stored texts. In \<open>demo_env\<close> no outside call
  fails, and the store answers before the write stream has opened its file.
\<close>

definition parts_hi :: string where
  \<open>parts_hi = ''[{"type":"text","text":"hi"}]''\<close>

definition parts_hello :: string where
  \<open>parts_hello = ''[{"type":"step-start"},{"type":"text","text":"hello"}]''\<close>

definition parts_image :: string where
  \<open>parts_image = ''[{"type":"image"}]''\<close>

definition parts_broken :: string where
  \<open>parts_broken = ''[{"type":"text",''\<close>

definition demo_parse :: "string \<Rightarrow> error + jsval" where
  "demo_parse s =
     (if s = parts_hi then
        Inr (Arr [Obj [(''type'', Str ''text''), (''text'', Str ''hi'')]])
      else if s = parts_hello then
        Inr (Arr [Obj [(''type'', Str ''step-start'')],
                  Obj [(''type'', Str ''text''), (''text'', Str ''hello'')]])
      else if s = parts_image then
        Inr (Arr [Obj [(''type'', Str ''image'')]])
      else Inl (SyntaxError ''Unexpected end of JSON input''))"

definition demo_env :: env where
  "demo_env =
     \<lparr>tmpdir = ''/tmp'', path_join = (\<lambda>d f. d @ ''/'' @ f), JSON_parse = demo_parse,
      fetchFault = None, addFault = (\<lambda>n. None), finalizeFault = None,
      openLandsFirst = False\<rparr>"

definition msg_hi :: ChatMessages where
  "msg_hi = \<lparr>message_id = ''m1'', chatId = ''C1'', role = ''user'',
             parts = parts_hi, sentAt = 1\<rparr>"

definition msg_hello :: ChatMessages where
  "msg_hello = \<lparr>message_id = ''m2'', chatId = ''C1'', role = ''assistant'',
                parts = parts_hello, sentAt = 2\<rparr>"

definition msg_image :: ChatMessages where
  "msg_image = \<lparr>message_id = ''m3'', chatId = ''C2'', role = ''user'',
                parts = parts_image, sentAt = 3\<rparr>"

definition msg_broken :: ChatMessages where
  "msg_broken = \<lparr>message_id = ''m4'', chatId = ''C3'', role = ''user'',
                 parts = parts_broken, sentAt = 4\<rparr>"

definition demo_messages :: "ChatMessages list" where
  "demo_messages = [msg_hello, msg_image, msg_hi, msg_broken]"

section \<open>Pagination: helper lemmas\<close>

lemma length_orderByCreatedAtDesc [simp]:
  "length (orderByCreatedAtDesc rows) = length rows"
  by (simp add: orderByCreatedAtDesc_def)

lemma set_orderByCreatedAtDesc [simp]:
  "set (orderByCreatedAtDesc rows) = set rows"
  by (simp add: orderByCreatedAtDesc_def)

lemma mset_orderByCreatedAtDesc [simp]:
  "mset (orderByCreatedAtDesc rows) = mset rows"
  by (simp add: orderByCreatedAtDesc_def)

lemma trimPage_findMany:
  "trimPage lim (findMany store w (lim + 1)) =
     \<lparr>chats = take (nat lim) (orderByCreatedAtDesc (filter w store)),
      hasMore = (lim < int (length (filter w store)))\<rparr>"
proof -
  let ?s = "orderByCreatedAtDesc (filter w store)"
  have len: "length ?s = length (filter w store)" by simp
  show ?thesis
  proof (cases "0 \<le> lim")
    case True
    then have rows: "findMany store w (lim + 1) = take (Suc (nat lim)) ?s"
      by (simp add: findMany_def prisma_take_def nat_add_distrib)
    show ?thesis
    proof (cases "lim < int (length ?s)")
      case long: True
      with True have "min (length ?s) (Suc (nat lim)) = Suc (nat lim)" by linarith
      with True long show ?thesis
        unfolding rows trimPage_def slice0_def Let_def
        by (simp add: min_def)
    next
      case short: False
      with True have "take (Suc (nat lim)) ?s = ?s" "take (nat lim) ?s = ?s" by simp_all
      with True short show ?thesis
        unfolding rows trimPage_def slice0_def Let_def by simp
    qed
  next
    case False
    then have neg: "lim < 0" by simp
    have short: "int (length (findMany store w (lim + 1))) + lim \<le> 0"
      using neg by (simp add: findMany_def prisma_take_def) linarith
    from neg have "lim < int (length (findMany store w (lim + 1)))"
      and "lim < int (length (filter w store))" by linarith+
    with neg short show ?thesis
      unfolding trimPage_def slice0_def Let_def by simp
  qed
qed

lemma matching_after:
  "truthy (startingAfter a) = Some sa \<Longrightarrow> findUnique store sa = Some x \<Longrightarrow>
   (\<lambda>c. baseWhere (callerId a) (project a) c \<and> createdAt x < createdAt c) = matching store a"
  by (rule ext) (auto simp: matching_def baseWhere_def)

lemma matching_before:
  "truthy (startingAfter a) = None \<Longrightarrow> truthy (endingBefore a) = Some eb \<Longrightarrow>
   findUnique store eb = Some x \<Longrightarrow>
   (\<lambda>c. baseWhere (callerId a) (project a) c \<and> createdAt c < createdAt x) = matching store a"
  by (rule ext) (auto simp: matching_def baseWhere_def)

lemma matching_first:
  "truthy (startingAfter a) = None \<Longrightarrow> truthy (endingBefore a) = None \<Longrightarrow>
   filter (baseWhere (callerId a) (project a)) rows = filter (matching store a) rows"
  by (rule filter_cong) (auto simp: matching_def baseWhere_def)

text \<open>
  A call that returns, returns the \<open>limit\<close> newest of the rows it selects, and reports
  whether it selected more than \<open>limit\<close> rows.
\<close>

lemma getChatsByUserId_page:
  assumes "getChatsByUserId store a = Inr pg"
  shows "pg = \<lparr>chats = take (nat (limit a))
                   (orderByCreatedAtDesc (filter (matching store a) store)),
               hasMore = (limit a < int (length (filter (matching store a) store)))\<rparr>"
proof (cases "truthy (startingAfter a)")
  case (Some sa)
  with assms obtain x where x: "findUnique store sa = Some x"
    by (cases "findUnique store sa")
       (simp_all add: getChatsByUserId_def getChatsByUserId_try_def)
  from assms Some x show ?thesis
    by (simp add: getChatsByUserId_def getChatsByUserId_try_def trimPage_findMany
          matching_after [OF Some x])
next
  case noAfter: None
  show ?thesis
  proof (cases "truthy (endingBefore a)")
    case (Some eb)
    with assms noAfter obtain x where x: "findUnique store eb = Some x"
      by (cases "findUnique store eb")
         (simp_all add: getChatsByUserId_def getChatsByUserId_try_def)
    from assms noAfter Some x show ?thesis
      by (simp add: getChatsByUserId_def getChatsByUserId_try_def trimPage_findMany
            matching_before [OF noAfter Some x])
  next
    case None
    with assms noAfter show ?thesis
      by (simp add: getChatsByUserId_def getChatsByUserId_try_def trimPage_findMany
            matching_first [OF noAfter None, where store = store])
  qed
qed

lemma overscan_rows:
  assumes "getChatsByUserId store a = Inr pg"
  shows "pg = trimPage (limit a) (findMany store (matching store a) (limit a + 1))"
  using getChatsByUserId_page [OF assms] by (simp add: trimPage_findMany)

lemma mset_drop_diff: "mset xs - mset (take n xs) = mset (drop n xs)"
proof -
  have "mset xs = mset (take n xs) + mset (drop n xs)"
    by (metis append_take_drop_id mset_append)
  then show ?thesis by simp
qed

lemma sorted_desc_orderBy:
  "sorted (map (\<lambda>c. - createdAt c) (orderByCreatedAtDesc rows))"
  by (simp add: orderByCreatedAtDesc_def)

lemma take_newer_than_drop:
  assumes "d \<in> set (take n (orderByCreatedAtDesc rows))"
    and "c \<in> set (drop n (orderByCreatedAtDesc rows))"
  shows "createdAt c \<le> createdAt d"
proof -
  let ?s = "orderByCreatedAtDesc rows"
  have "sorted (map (\<lambda>c. - createdAt c) (take n ?s @ drop n ?s))"
    using sorted_desc_orderBy [of rows] by simp
  then have "\<forall>x\<in>set (take n ?s). \<forall>y\<in>set (drop n ?s). - createdAt x \<le> - createdAt y"
    unfolding map_append sorted_append by auto
  with assms show ?thesis by auto
qed

lemma findUnique_member:
  "distinct (map chat_id store) \<Longrightarrow> f \<in> set store \<Longrightarrow> findUnique store (chat_id f) = Some f"
  unfolding findUnique_def
  by (induction store) (auto simp: image_iff)

lemma getChatsByUserId_returns:
  "cursorResolves store a \<Longrightarrow> \<exists>pg. getChatsByUserId store a = Inr pg"
  by (auto simp: cursorResolves_def getChatsByUserId_def getChatsByUserId_try_def
        split: option.splits)

lemmas pagination_defs =
  getChatsByUserId_def getChatsByUserId_try_def truthy_def findUnique_def findMany_def
  prisma_take_def orderByCreatedAtDesc_def trimPage_def slice0_def baseWhere_def notFound_def

lemmas demo_defs =
  demo_store_def chat_a_def chat_b_def chat_c_def chat_d_def chat_e_def chat_f_def
  alice_p1_def

lemma demo_first_page:
  "getChatsByUserId demo_store (alice_p1 2 None None) =
     Inr \<lparr>chats = [chat_f, chat_e], hasMore = True\<rparr>"
  by (simp add: pagination_defs demo_defs)

lemma demo_matching:
  "filter (matching demo_store (alice_p1 lim None None)) demo_store =
     [chat_a, chat_f, chat_b, chat_e]"
  by (simp add: matching_def pagination_defs demo_defs)

section \<open>Pagination: properties\<close>

text \<open>
  C1 (page size contract). A call with limit \<open>L > 0\<close> that returns, returns at most \<open>L\<close>
  chats, all of them among the stored chats that satisfy the visibility predicate and
  the cursor constraint; \<open>hasMore\<close> is true exactly when at least one such chat is left
  beyond the page; and when the overscan fetch of \<open>L + 1\<close> rows returns more than \<open>L\<close>
  rows, the page is its first \<open>L\<close> rows (otherwise it is the whole fetch).
\<close>

theorem page_size_contract:
  assumes "0 < limit a" and "getChatsByUserId store a = Inr pg"
  shows "int (length (chats pg)) \<le> limit a
       \<and> mset (chats pg) \<subseteq># mset (filter (matching store a) store)
       \<and> (hasMore pg \<longleftrightarrow> mset (filter (matching store a) store) - mset (chats pg) \<noteq> {#})
       \<and> (limit a < int (length (findMany store (matching store a) (limit a + 1))) \<longrightarrow>
            hasMore pg \<and>
            chats pg = take (nat (limit a)) (findMany store (matching store a) (limit a + 1)))
       \<and> (int (length (findMany store (matching store a) (limit a + 1))) \<le> limit a \<longrightarrow>
            \<not> hasMore pg \<and> chats pg = findMany store (matching store a) (limit a + 1))"
proof -
  let ?s = "orderByCreatedAtDesc (filter (matching store a) store)"
  let ?rows = "findMany store (matching store a) (limit a + 1)"
  have pg: "pg = \<lparr>chats = take (nat (limit a)) ?s,
                  hasMore = (limit a < int (length (filter (matching store a) store)))\<rparr>"
    by (rule getChatsByUserId_page [OF assms(2)])
  have rows: "pg = trimPage (limit a) ?rows"
    by (rule overscan_rows [OF assms(2)])
  have size: "int (length (chats pg)) \<le> limit a"
    using assms(1) by (subst pg) simp
  have sub: "mset (chats pg) \<subseteq># mset (filter (matching store a) store)"
  proof -
    have "mset (take (nat (limit a)) ?s) \<subseteq># mset ?s"
      by (metis append_take_drop_id mset_append mset_subset_eq_add_left)
    then show ?thesis by (subst pg) simp
  qed
  have more: "hasMore pg \<longleftrightarrow> mset (filter (matching store a) store) - mset (chats pg) \<noteq> {#}"
  proof -
    have "mset (filter (matching store a) store) - mset (chats pg)
            = mset (drop (nat (limit a)) ?s)"
      using mset_drop_diff [of ?s "nat (limit a)"] by (subst pg) simp
    moreover have "drop (nat (limit a)) ?s \<noteq> [] \<longleftrightarrow> hasMore pg"
      using assms(1) by (subst pg) (simp, linarith)
    ultimately show ?thesis by simp
  qed
  have long: "limit a < int (length ?rows) \<longrightarrow>
                hasMore pg \<and> chats pg = take (nat (limit a)) ?rows"
    using assms(1) by (subst (1 2) rows) (simp add: trimPage_def slice0_def)
  have short: "int (length ?rows) \<le> limit a \<longrightarrow> \<not> hasMore pg \<and> chats pg = ?rows"
    by (subst (1 2) rows) (simp add: trimPage_def)
  from size sub more long short show ?thesis by blast
qed

theorem page_size_contract_witness:
  "0 < limit (alice_p1 2 None None)
   \<and> getChatsByUserId demo_store (alice_p1 2 None None)
       = Inr \<lparr>chats = [chat_f, chat_e], hasMore = True\<rparr>
   \<and> int (length [chat_f, chat_e]) \<le> 2
   \<and> mset [chat_a, chat_f, chat_b, chat_e] - mset [chat_f, chat_e] \<noteq> {#}"
proof -
  have pos: "0 < limit (alice_p1 2 None None)" by (simp add: alice_p1_def)
  have "hasMore \<lparr>chats = [chat_f, chat_e], hasMore = True\<rparr> \<longleftrightarrow>
          mset (filter (matching demo_store (alice_p1 2 None None)) demo_store)
            - mset (chats \<lparr>chats = [chat_f, chat_e], hasMore = True\<rparr>) \<noteq> {#}"
    using page_size_contract [OF pos demo_first_page] by blast
  then have "mset [chat_a, chat_f, chat_b, chat_e] - mset [chat_f, chat_e] \<noteq> {#}"
    unfolding demo_matching by simp
  then show ?thesis
    using pos demo_first_page by simp
qed

text \<open>
  C2 (visibility). Every chat of a returned page is a stored chat of the requested
  project that the caller owns or that is public, so a chat of another project never
  appears. The page is complete within the window and the limit: it is the first
  \<open>limit\<close> chats, newest first, of the stored chats that satisfy the predicate and the
  cursor constraint; when \<open>hasMore\<close> is false every such chat appears, and a chat that
  the limit leaves out is not newer than any chat of the page.
\<close>

theorem listing_visibility:
  assumes "getChatsByUserId store a = Inr pg"
  shows "(\<forall>c\<in>set (chats pg). c \<in> set store \<and> projectId c = project a \<and>
            (userId c = callerId a \<or> visibility c = PUBLIC))
       \<and> (\<forall>c. projectId c \<noteq> project a \<longrightarrow> c \<notin> set (chats pg))
       \<and> chats pg = take (nat (limit a))
                       (orderByCreatedAtDesc (filter (matching store a) store))
       \<and> (\<not> hasMore pg \<longrightarrow> (\<forall>c\<in>set store. matching store a c \<longrightarrow> c \<in> set (chats pg)))
       \<and> (\<forall>c \<in># mset (filter (matching store a) store) - mset (chats pg).
            \<forall>d\<in>set (chats pg). createdAt c \<le> createdAt d)"
proof -
  let ?m = "filter (matching store a) store"
  let ?s = "orderByCreatedAtDesc ?m"
  have pg: "pg = \<lparr>chats = take (nat (limit a)) ?s,
                  hasMore = (limit a < int (length ?m))\<rparr>"
    by (rule getChatsByUserId_page [OF assms])
  have page: "chats pg = take (nat (limit a)) ?s"
    by (subst pg) simp
  have memb: "\<And>c. c \<in> set (chats pg) \<Longrightarrow> c \<in> set store \<and> matching store a c"
  proof -
    fix c assume "c \<in> set (chats pg)"
    then have "c \<in> set ?s" unfolding page by (rule in_set_takeD)
    then show "c \<in> set store \<and> matching store a c" by simp
  qed
  have vis: "\<forall>c\<in>set (chats pg). c \<in> set store \<and> projectId c = project a \<and>
               (userId c = callerId a \<or> visibility c = PUBLIC)"
    using memb by (auto simp: matching_def)
  then have other: "\<forall>c. projectId c \<noteq> project a \<longrightarrow> c \<notin> set (chats pg)"
    by blast
  have all: "\<not> hasMore pg \<longrightarrow> (\<forall>c\<in>set store. matching store a c \<longrightarrow> c \<in> set (chats pg))"
  proof
    assume "\<not> hasMore pg"
    then have "int (length ?s) \<le> limit a" by (subst (asm) pg) simp
    then have "chats pg = ?s" unfolding page by simp
    then show "\<forall>c\<in>set store. matching store a c \<longrightarrow> c \<in> set (chats pg)" by simp
  qed
  have rest: "\<forall>c \<in># mset ?m - mset (chats pg). \<forall>d\<in>set (chats pg). createdAt c \<le> createdAt d"
  proof -
    have "mset ?m - mset (chats pg) = mset (drop (nat (limit a)) ?s)"
      using mset_drop_diff [of ?s "nat (limit a)"] unfolding page by simp
    then show ?thesis
      unfolding page using take_newer_than_drop [of _ "nat (limit a)" ?m] by auto
  qed
  from vis other page all rest show ?thesis by blast
qed

theorem listing_visibility_witness:
  "getChatsByUserId demo_store (alice_p1 2 None None)
     = Inr \<lparr>chats = [chat_f, chat_e], hasMore = True\<rparr>
   \<and> chat_f \<in> set demo_store \<and> projectId chat_f = ''p1'' \<and> visibility chat_f = PUBLIC
   \<and> chat_e \<in> set demo_store \<and> projectId chat_e = ''p1'' \<and> userId chat_e = ''alice''
   \<and> chat_d \<notin> {chat_f, chat_e}
   \<and> [chat_f, chat_e] = take 2 (orderByCreatedAtDesc [chat_a, chat_f, chat_b, chat_e])"
  using listing_visibility [OF demo_first_page] demo_first_page
  by (simp add: demo_matching) (simp add: demo_defs)

text \<open>
  C3 (unknown cursor). When the cursor the call resolves names no stored chat, the call
  fails with the error \<^verbatim>\<open>Chat with id <cursor> not found\<close>, which reaches the caller; no
  page, empty or not, is returned. The cursor resolved is \<^verbatim>\<open>startingAfter\<close> when it is
  given (non-empty), otherwise \<^verbatim>\<open>endingBefore\<close>.
\<close>

theorem unknown_cursor_not_found:
  "(truthy (startingAfter a) = Some x \<and> findUnique store x = None \<longrightarrow>
      getChatsByUserId store a = Inl (Error (''Chat with id '' @ x @ '' not found'')) \<and>
      (\<forall>pg. getChatsByUserId store a \<noteq> Inr pg))
   \<and> (truthy (startingAfter a) = None \<and> truthy (endingBefore a) = Some x \<and>
      findUnique store x = None \<longrightarrow>
      getChatsByUserId store a = Inl (Error (''Chat with id '' @ x @ '' not found'')) \<and>
      (\<forall>pg. getChatsByUserId store a \<noteq> Inr pg))"
  by (simp add: getChatsByUserId_def getChatsByUserId_try_def notFound_def)

theorem unknown_cursor_not_found_witness:
  "truthy (startingAfter (alice_p1 2 (Some ''zz'') None)) = Some ''zz''
   \<and> findUnique demo_store ''zz'' = None
   \<and> getChatsByUserId demo_store (alice_p1 2 (Some ''zz'') None)
       = Inl (Error ''Chat with id zz not found'')
   \<and> truthy (startingAfter (alice_p1 2 None (Some ''zz''))) = None
   \<and> truthy (endingBefore (alice_p1 2 None (Some ''zz''))) = Some ''zz''
   \<and> getChatsByUserId demo_store (alice_p1 2 None (Some ''zz''))
       = Inl (Error ''Chat with id zz not found'')"
proof -
  have a: "truthy (startingAfter (alice_p1 2 (Some ''zz'') None)) = Some ''zz''"
    and b: "truthy (startingAfter (alice_p1 2 None (Some ''zz''))) = None"
    and c: "truthy (endingBefore (alice_p1 2 None (Some ''zz''))) = Some ''zz''"
    by (simp_all add: truthy_def alice_p1_def)
  have u: "findUnique demo_store ''zz'' = None"
    by (simp add: findUnique_def demo_defs)
  show ?thesis
    using unknown_cursor_not_found [of "alice_p1 2 (Some ''zz'') None" "''zz''" demo_store]
      unknown_cursor_not_found [of "alice_p1 2 None (Some ''zz'')" "''zz''" demo_store]
      a b c u
    by simp
qed


lemma head_is_newest:
  assumes "orderByCreatedAtDesc rows = f # rest" and "c \<in> set rows"
  shows "createdAt c \<le> createdAt f"
proof -
  have "sorted (map (\<lambda>c. - createdAt c) (f # rest))"
    using sorted_desc_orderBy [of rows] assms(1) by simp
  moreover have "c \<in> set (f # rest)"
    using assms by (metis set_orderByCreatedAtDesc)
  ultimately show ?thesis by auto
qed

lemma timeline_after_k3:
  "pageAfter timeline ''alice'' ''p1'' 2 ''k3'' =
     Inr \<lparr>chats = [k ''k8'' 8, k ''k7'' 7], hasMore = True\<rparr>"
  by (simp add: pageAfter_def pagination_defs timeline_def k_def)

lemma timeline_distinct: "distinct (map chat_id timeline)"
  by (simp add: timeline_def k_def)

text \<open>
  C4 (cursor symmetry), as stated, fails. In a project with eight chats created at times
  1 to 8 and limit 2, paginating forward from the cursor \<open>k3\<close> returns the two newest
  chats \<open>k8\<close>, \<open>k7\<close>, and paginating backward from the first of them returns \<open>k7\<close>,
  \<open>k6\<close>. This is not the page before \<open>k3\<close> (the call with \<^verbatim>\<open>endingBefore = k3\<close> returns
  \<open>k2\<close>, \<open>k1\<close>), and it holds none of the chats \<open>k1\<close> to \<open>k5\<close>, that is neither the
  cursor nor a chat within two places of it on either side.
\<close>

theorem cursor_symmetry_counterexample:
  "pageAfter timeline ''alice'' ''p1'' 2 ''k3''
     = Inr \<lparr>chats = [k ''k8'' 8, k ''k7'' 7], hasMore = True\<rparr>
   \<and> pageBefore timeline ''alice'' ''p1'' 2 (chat_id (k ''k8'' 8))
     = Inr \<lparr>chats = [k ''k7'' 7, k ''k6'' 6], hasMore = True\<rparr>
   \<and> pageBefore timeline ''alice'' ''p1'' 2 ''k3''
     = Inr \<lparr>chats = [k ''k2'' 2, k ''k1'' 1], hasMore = False\<rparr>
   \<and> set [k ''k7'' 7, k ''k6'' 6] \<noteq> set [k ''k2'' 2, k ''k1'' 1]
   \<and> set [k ''k7'' 7, k ''k6'' 6]
       \<inter> set [k ''k1'' 1, k ''k2'' 2, k ''k3'' 3, k ''k4'' 4, k ''k5'' 5] = {}"
  by (simp add: pageAfter_def pageBefore_def pagination_defs timeline_def k_def
        doubleton_eq_iff)

text \<open>
  C4, amended. In a store with unique chat ids, when paginating forward from a cursor
  returns a non-empty page whose first chat \<open>f\<close> has a non-empty id, \<open>f\<close> is a newest
  visible chat of the project (no chat satisfying the visibility predicate is newer),
  whatever the cursor was; and paginating backward from \<open>f\<close> returns the first \<open>limit\<close>
  chats, newest first, of the visible chats strictly older than \<open>f\<close>, with \<open>hasMore\<close>
  true exactly when there are more than \<open>limit\<close> of them. (A chat whose id is the empty
  string cannot serve as a cursor: \<^verbatim>\<open>if (endingBefore)\<close> takes it for no cursor.)
\<close>

theorem forward_then_backward:
  assumes "distinct (map chat_id store)"
    and "pageAfter store i p lim x = Inr pg"
    and "chats pg = f # rest"
    and "chat_id f \<noteq> []"
  shows "(\<forall>c\<in>set store. baseWhere i p c \<longrightarrow> createdAt c \<le> createdAt f)
       \<and> pageBefore store i p lim (chat_id f) =
           Inr \<lparr>chats = take (nat lim) (orderByCreatedAtDesc
                    (filter (\<lambda>c. baseWhere i p c \<and> createdAt c < createdAt f) store)),
                hasMore = (lim < int (length
                    (filter (\<lambda>c. baseWhere i p c \<and> createdAt c < createdAt f) store)))\<rparr>"
proof -
  let ?a = "\<lparr>callerId = i, project = p, limit = lim,
             startingAfter = Some x, endingBefore = None\<rparr>"
  let ?m = "filter (matching store ?a) store"
  have call: "getChatsByUserId store ?a = Inr pg"
    using assms(2) by (simp add: pageAfter_def)
  have page: "take (nat lim) (orderByCreatedAtDesc ?m) = f # rest"
    using getChatsByUserId_page [OF call] assms(3) by simp
  then obtain rest' where sorted: "orderByCreatedAtDesc ?m = f # rest'"
    by (cases "orderByCreatedAtDesc ?m") (auto simp: take_Cons' split: if_splits)
  then have "f \<in> set (orderByCreatedAtDesc ?m)" by simp
  then have f: "f \<in> set store" "matching store ?a f" by simp_all
  have newest: "\<forall>c\<in>set store. baseWhere i p c \<longrightarrow> createdAt c \<le> createdAt f"
  proof (intro ballI impI)
    fix c assume c: "c \<in> set store" "baseWhere i p c"
    show "createdAt c \<le> createdAt f"
    proof (cases "matching store ?a c")
      case True
      with c(1) have "c \<in> set ?m" by simp
      then show ?thesis by (rule head_is_newest [OF sorted])
    next
      case False
      with c(2) have given: "truthy (Some x) = Some x"
        by (auto simp: matching_def baseWhere_def truthy_def split: if_splits)
      with f(2) obtain y where y: "findUnique store x = Some y" "createdAt y < createdAt f"
        by (auto simp: matching_def split: option.splits)
      with False c(2) given have "\<not> createdAt y < createdAt c"
        by (auto simp: matching_def baseWhere_def)
      with y(2) show ?thesis by simp
    qed
  qed
  have "findUnique store (chat_id f) = Some f"
    by (rule findUnique_member [OF assms(1) f(1)])
  with assms(4) have bwd: "pageBefore store i p lim (chat_id f) =
      Inr (trimPage lim
        (findMany store (\<lambda>c. baseWhere i p c \<and> createdAt c < createdAt f) (lim + 1)))"
    by (simp add: pageBefore_def getChatsByUserId_def getChatsByUserId_try_def truthy_def)
  from newest bwd show ?thesis
    by (simp add: trimPage_findMany)
qed

theorem forward_then_backward_witness:
  "distinct (map chat_id timeline)
   \<and> pageAfter timeline ''alice'' ''p1'' 2 ''k3''
       = Inr \<lparr>chats = [k ''k8'' 8, k ''k7'' 7], hasMore = True\<rparr>
   \<and> chat_id (k ''k8'' 8) \<noteq> []
   \<and> pageBefore timeline ''alice'' ''p1'' 2 ''k8''
       = Inr \<lparr>chats = [k ''k7'' 7, k ''k6'' 6], hasMore = True\<rparr>"
proof -
  have id: "chat_id (k ''k8'' 8) \<noteq> []" by (simp add: k_def)
  have "pageBefore timeline ''alice'' ''p1'' 2 (chat_id (k ''k8'' 8)) =
          Inr \<lparr>chats = take (nat 2) (orderByCreatedAtDesc
                   (filter (\<lambda>c. baseWhere ''alice'' ''p1'' c \<and> createdAt c < createdAt (k ''k8'' 8))
                      timeline)),
               hasMore = (2 < int (length
                   (filter (\<lambda>c. baseWhere ''alice'' ''p1'' c \<and> createdAt c < createdAt (k ''k8'' 8))
                      timeline)))\<rparr>"
    using forward_then_backward [OF timeline_distinct timeline_after_k3 _ id] by simp
  then have "pageBefore timeline ''alice'' ''p1'' 2 ''k8''
               = Inr \<lparr>chats = [k ''k7'' 7, k ''k6'' 6], hasMore = True\<rparr>"
    by (simp add: timeline_def k_def baseWhere_def orderByCreatedAtDesc_def)
  with id show ?thesis
    using timeline_distinct timeline_after_k3 by simp
qed

text \<open>
  C8 (both cursors), as stated, fails: a call that gives both \<^verbatim>\<open>startingAfter\<close> and
  \<^verbatim>\<open>endingBefore\<close> is not rejected. Here it returns the page after \<open>a\<close>, which even
  contains the chat \<open>f\<close> named by \<^verbatim>\<open>endingBefore\<close>.
\<close>

theorem both_cursors_counterexample:
  "getChatsByUserId demo_store
     \<lparr>callerId = ''alice'', project = ''p1'', limit = 2,
      startingAfter = Some ''a'', endingBefore = Some ''f''\<rparr>
   = Inr \<lparr>chats = [chat_f, chat_e], hasMore = True\<rparr>"
  by (simp add: pagination_defs demo_defs)

text \<open>
  C8, amended. When \<^verbatim>\<open>startingAfter\<close> is given (non-empty), \<^verbatim>\<open>endingBefore\<close> is ignored:
  the call has the outcome of the same call without \<^verbatim>\<open>endingBefore\<close>.
\<close>

theorem startingAfter_takes_precedence:
  assumes "truthy (startingAfter a) \<noteq> None"
  shows "getChatsByUserId store a = getChatsByUserId store (a\<lparr>endingBefore := None\<rparr>)"
  using assms
  by (auto simp: getChatsByUserId_def getChatsByUserId_try_def split: option.splits)

theorem startingAfter_takes_precedence_witness:
  "truthy (startingAfter (alice_p1 2 (Some ''a'') (Some ''f''))) \<noteq> None
   \<and> getChatsByUserId demo_store (alice_p1 2 (Some ''a'') (Some ''f''))
       = getChatsByUserId demo_store (alice_p1 2 (Some ''a'') None)"
proof -
  have t: "truthy (startingAfter (alice_p1 2 (Some ''a'') (Some ''f''))) \<noteq> None"
    by (simp add: truthy_def alice_p1_def)
  show ?thesis
    using t startingAfter_takes_precedence [OF t, of demo_store]
    by (simp add: alice_p1_def)
qed

text \<open>
  C9 (limit zero), as stated, fails: a call with \<^verbatim>\<open>limit = 0\<close> is not rejected. It
  returns an empty page, here with \<open>hasMore = true\<close>.
\<close>

theorem limit_zero_counterexample:
  "getChatsByUserId demo_store
     \<lparr>callerId = ''alice'', project = ''p1'', limit = 0,
      startingAfter = None, endingBefore = None\<rparr>
   = Inr \<lparr>chats = [], hasMore = True\<rparr>"
  by (simp add: pagination_defs demo_defs)

text \<open>
  C9, amended. A call with a limit \<open>\<ge> 0\<close> whose cursor, if any, resolves, returns a
  page. With \<^verbatim>\<open>limit = 0\<close> the page is empty and \<open>hasMore\<close> is true exactly when some stored
  chat satisfies the predicate and the cursor constraint, so it never reports
  \<open>hasMore = false\<close> wrongly. When no stored chat satisfies them, the page is empty with
  \<open>hasMore = false\<close>.
\<close>

theorem limit_zero_and_no_rows:
  assumes "cursorResolves store a" and "0 \<le> limit a"
  shows "\<exists>pg. getChatsByUserId store a = Inr pg
       \<and> (limit a = 0 \<longrightarrow>
            chats pg = [] \<and> (hasMore pg \<longleftrightarrow> (\<exists>c\<in>set store. matching store a c)))
       \<and> ((\<forall>c\<in>set store. \<not> matching store a c) \<longrightarrow> chats pg = [] \<and> \<not> hasMore pg)"
proof -
  from assms(1) obtain pg where call: "getChatsByUserId store a = Inr pg"
    using getChatsByUserId_returns by blast
  let ?m = "filter (matching store a) store"
  have pg: "pg = \<lparr>chats = take (nat (limit a)) (orderByCreatedAtDesc ?m),
                  hasMore = (limit a < int (length ?m))\<rparr>"
    by (rule getChatsByUserId_page [OF call])
  have zero: "limit a = 0 \<longrightarrow>
      chats pg = [] \<and> (hasMore pg \<longleftrightarrow> (\<exists>c\<in>set store. matching store a c))"
    by (subst (1 2) pg) (auto simp: filter_empty_conv)
  have none: "(\<forall>c\<in>set store. \<not> matching store a c) \<longrightarrow> chats pg = [] \<and> \<not> hasMore pg"
  proof
    assume "\<forall>c\<in>set store. \<not> matching store a c"
    then have "?m = []" by (simp add: filter_empty_conv)
    then show "chats pg = [] \<and> \<not> hasMore pg"
      using assms(2) by (subst (1 2) pg) (simp add: orderByCreatedAtDesc_def)
  qed
  from call zero none show ?thesis by blast
qed

theorem limit_zero_and_no_rows_witness:
  "cursorResolves demo_store (alice_p1 0 None None)
   \<and> 0 \<le> limit (alice_p1 0 None None)
   \<and> getChatsByUserId demo_store (alice_p1 0 None None) = Inr \<lparr>chats = [], hasMore = True\<rparr>
   \<and> chat_a \<in> set demo_store \<and> matching demo_store (alice_p1 0 None None) chat_a"
proof -
  have r: "cursorResolves demo_store (alice_p1 0 None None)"
    by (simp add: cursorResolves_def truthy_def alice_p1_def)
  have l: "0 \<le> limit (alice_p1 0 None None)"
    by (simp add: alice_p1_def)
  have m: "chat_a \<in> set demo_store" "matching demo_store (alice_p1 0 None None) chat_a"
    by (simp_all add: matching_def truthy_def demo_defs)
  from limit_zero_and_no_rows [OF r l] obtain pg where
    pg: "getChatsByUserId demo_store (alice_p1 0 None None) = Inr pg"
    and z: "limit (alice_p1 0 None None) = 0 \<longrightarrow>
      chats pg = [] \<and> (hasMore pg \<longleftrightarrow> (\<exists>c\<in>set demo_store. matching demo_store (alice_p1 0 None None) c))"
    by blast
  have "limit (alice_p1 0 None None) = 0" by (simp add: alice_p1_def)
  with z m have "chats pg = []" "hasMore pg" by blast+
  then have "pg = \<lparr>chats = [], hasMore = True\<rparr>" by simp
  with pg r l m show ?thesis by simp
qed


section \<open>Export: helper lemmas\<close>

lemma isTextPart_Inr: "isTextPart part = Inr b \<Longrightarrow> b = isTextSegment part"
  by (cases part) (auto simp: isTextPart_def isTextSegment_def split: option.splits)

lemma isTextPart_Inl: "isTextPart part = Inl e \<Longrightarrow> \<exists>msg. e = TypeError msg"
  by (cases part) (auto simp: isTextPart_def)

lemma getProp_text: "isTextSegment part \<Longrightarrow> getProp part ''text'' = Inr (segmentText part)"
  by (cases part) (auto simp: isTextSegment_def segmentText_def)

lemma array_find_found:
  "array_find isTextPart ps = Inr x \<Longrightarrow>
     (x = Undefined \<and> List.find isTextSegment ps = None) \<or>
     (List.find isTextSegment ps = Some x \<and> isTextSegment x)"
proof (induction ps)
  case Nil
  then show ?case by simp
next
  case (Cons q ps)
  show ?case
  proof (cases "isTextPart q")
    case (Inl e)
    with Cons.prems show ?thesis by simp
  next
    case (Inr b)
    then have b: "b = isTextSegment q" by (rule isTextPart_Inr)
    with Cons Inr show ?thesis by (cases b) auto
  qed
qed

lemma array_find_none:
  "List.find isTextSegment ps = None \<Longrightarrow>
     (\<exists>msg. array_find isTextPart ps = Inl (TypeError msg)) \<or>
     array_find isTextPart ps = Inr Undefined"
proof (induction ps)
  case Nil
  then show ?case by simp
next
  case (Cons q ps)
  show ?case
  proof (cases "isTextPart q")
    case (Inl e)
    then show ?thesis using isTextPart_Inl [OF Inl] by auto
  next
    case (Inr b)
    then have "b = isTextSegment q" by (rule isTextPart_Inr)
    with Cons Inr show ?thesis by (auto split: if_splits)
  qed
qed

lemma formatItem_Inr:
  assumes "formatItem ev item = Inr entry"
  shows "\<exists>v seg. JSON_parse ev (parts item) = Inr v \<and> firstTextSegment v = Some seg \<and>
           entry = Obj [(''from'', Str (if role item = ''user'' then ''human'' else ''gpt'')),
                        (''value'', segmentText seg)]"
proof -
  from assms obtain v found t where
    v: "JSON_parse ev (parts item) = Inr v" and
    found: "parts_find v = Inr found" and
    t: "getProp found ''text'' = Inr t" and
    entry: "entry = Obj [(''from'', Str (if role item = ''user'' then ''human'' else ''gpt'')),
                         (''value'', t)]"
    by (auto simp: formatItem_def split: sum.splits)
  from found obtain ps where ps: "v = Arr ps" "array_find isTextPart ps = Inr found"
    by (cases v) auto
  from t have "found \<noteq> Undefined" by auto
  with array_find_found [OF ps(2)] have seg: "List.find isTextSegment ps = Some found"
    "isTextSegment found" by auto
  with t have "t = segmentText found" by (simp add: getProp_text)
  with v ps(1) seg(1) entry show ?thesis by (simp add: firstTextSegment_def)
qed

lemma formatItem_undecodable:
  "JSON_parse ev (parts item) = Inl e \<Longrightarrow> formatItem ev item = Inl e"
  by (simp add: formatItem_def)

lemma parts_find_no_text:
  assumes "firstTextSegment v = None"
  shows "(\<exists>msg. parts_find v = Inl (TypeError msg)) \<or> parts_find v = Inr Undefined"
proof (cases v)
  case (Arr ps)
  with assms have "List.find isTextSegment ps = None" by (simp add: firstTextSegment_def)
  from array_find_none [OF this] Arr show ?thesis by simp
qed simp_all

lemma formatItem_no_text:
  assumes "JSON_parse ev (parts item) = Inr v" and "firstTextSegment v = None"
  shows "\<exists>msg. formatItem ev item = Inl (TypeError msg)"
  using parts_find_no_text [OF assms(2)] assms(1)
  by (auto simp: formatItem_def)

lemma array_map_Inr:
  "array_map f xs = Inr ys \<Longrightarrow> list_all2 (\<lambda>x y. f x = Inr y) xs ys"
  by (induction xs arbitrary: ys) (auto split: sum.splits)

lemma array_map_Inl:
  "array_map f xs = Inl e \<Longrightarrow> \<exists>x\<in>set xs. f x = Inl e"
  by (induction xs) (auto split: sum.splits)

lemma array_map_fails:
  "x \<in> set xs \<Longrightarrow> f x = Inl e \<Longrightarrow> \<exists>e'. array_map f xs = Inl e'"
  by (induction xs) (auto split: sum.splits)

lemma datasetFilename_not_info: "datasetFilename c \<noteq> ''dataset_info.json''"
  by (simp add: datasetFilename_def)

text \<open>The \<^verbatim>\<open>try\<close> block succeeds exactly when every step does, and then writes both entries.\<close>

lemma exportChatDataset_try_Inr:
  "exportChatDataset_try ev messages files zp c = Inr files2 \<longleftrightarrow>
     fetchFault ev = None \<and>
     (\<exists>formatted.
        array_map (formatItem ev) (sort_key sentAt (filter (\<lambda>m. chatId m = c) messages))
          = Inr formatted \<and>
        addFault ev (datasetFilename c) = None \<and>
        addFault ev ''dataset_info.json'' = None \<and>
        finalizeFault ev = None \<and>
        files2 = files(zp \<mapsto> Zip [(datasetFilename c, Obj [(''conversations'', Arr formatted)]),
                                    (''dataset_info.json'', datasetInfo c)]))"
  using datasetFilename_not_info [of c]
  by (auto simp: exportChatDataset_try_def getMessagesByChatId_def addJsonToArchive_def
        finalize_def split: option.splits sum.splits)

text \<open>
  The \<^verbatim>\<open>catch\<close> block returns the error of the \<^verbatim>\<open>try\<close> block. The file is gone when the
  stream had opened it before the unlink, and is there, partial, when it had not.
\<close>

lemma exportChatDataset_Inl:
  assumes "exportChatDataset_try ev messages
             (openStream files (path_join ev (tmpdir ev) (exportFilename p c)))
             (path_join ev (tmpdir ev) (exportFilename p c)) c = Inl e"
  shows "exportChatDataset ev messages files p c =
           (if openLandsFirst ev
            then files(path_join ev (tmpdir ev) (exportFilename p c) := None)
            else files(path_join ev (tmpdir ev) (exportFilename p c) \<mapsto> Partial),
            Inl e)"
  using assms
  by (simp add: exportChatDataset_def Let_def unlink_quiet_def unlink_def openStream_def)

lemma exportChatDataset_raises:
  assumes "exportChatDataset_try ev messages
             (openStream files (path_join ev (tmpdir ev) (exportFilename p c)))
             (path_join ev (tmpdir ev) (exportFilename p c)) c = Inl e"
  shows "snd (exportChatDataset ev messages files p c) = Inl e"
  by (simp add: exportChatDataset_Inl [OF assms])

lemma exportChatDataset_try_steps:
  assumes "fetchFault ev \<noteq> None
         \<or> (\<exists>m\<in>set messages. chatId m = c \<and> (\<exists>e. formatItem ev m = Inl e))
         \<or> addFault ev (datasetFilename c) \<noteq> None
         \<or> addFault ev ''dataset_info.json'' \<noteq> None
         \<or> finalizeFault ev \<noteq> None"
  shows "\<exists>e. exportChatDataset_try ev messages files zp c = Inl e"
proof (cases "exportChatDataset_try ev messages files zp c")
  case (Inl e)
  then show ?thesis by blast
next
  case (Inr files2)
  then obtain formatted where ok:
    "fetchFault ev = None"
    "array_map (formatItem ev) (sort_key sentAt (filter (\<lambda>m. chatId m = c) messages))
       = Inr formatted"
    "addFault ev (datasetFilename c) = None"
    "addFault ev ''dataset_info.json'' = None"
    "finalizeFault ev = None"
    unfolding exportChatDataset_try_Inr by blast
  from assms ok obtain m e where m: "m \<in> set messages" "chatId m = c" "formatItem ev m = Inl e"
    by auto
  then have "m \<in> set (sort_key sentAt (filter (\<lambda>m. chatId m = c) messages))" by simp
  from array_map_fails [where f = "formatItem ev", OF this m(3)] ok(2) show ?thesis by simp
qed

lemmas export_defs =
  exportChatDataset_def exportChatDataset_try_def getMessagesByChatId_def formatItem_def
  isTextPart_def addJsonToArchive_def openStream_def finalize_def unlink_def
  unlink_quiet_def exportFilename_def datasetFilename_def datasetInfo_def reading_def Let_def

lemmas demo_export_defs =
  demo_env_def demo_parse_def demo_messages_def msg_hi_def msg_hello_def msg_image_def
  msg_broken_def parts_hi_def parts_hello_def parts_image_def parts_broken_def

lemma demo_export:
  "exportChatDataset demo_env demo_messages Map.empty ''P'' ''C1'' =
     ([''/tmp/DatasetLoom-P-C1.zip'' \<mapsto>
         Zip [(''chat_C1_dataset.json'',
               Obj [(''conversations'',
                 Arr [Obj [(''from'', Str ''human''), (''value'', Str ''hi'')],
                      Obj [(''from'', Str ''gpt''), (''value'', Str ''hello'')]])]),
              (''dataset_info.json'', datasetInfo ''C1'')]],
      Inr \<lparr>filePath = ''/tmp/DatasetLoom-P-C1.zip'', filename = ''DatasetLoom-P-C1.zip''\<rparr>)"
  by (simp add: export_defs demo_export_defs)

section \<open>Export: properties\<close>

text \<open>
  C5 (export completeness). When \<^verbatim>\<open>exportChatDataset(projectId, chatId)\<close> succeeds, it
  returns the file name \<^verbatim>\<open>DatasetLoom-<projectId>-<chatId>.zip\<close> and its path in the
  temporary directory, and the file at that path is a finished archive with exactly two
  entries. The first, \<^verbatim>\<open>chat_<chatId>_dataset.json\<close>, is \<^verbatim>\<open>{conversations: [...]}\<close> with one
  entry for each stored message of the chat, in ascending order of creation time; the
  entry of a message has \<^verbatim>\<open>from\<close> = \<^verbatim>\<open>human\<close> for the role \<^verbatim>\<open>user\<close> and \<^verbatim>\<open>gpt\<close> otherwise, and
  \<^verbatim>\<open>value\<close> = the text of the first segment of type \<^verbatim>\<open>text\<close> of its decoded parts. The
  second, \<^verbatim>\<open>dataset_info.json\<close>, is the manifest naming the dataset file, the format
  \<^verbatim>\<open>sharegpt\<close> and the column mapping.
\<close>

theorem export_completeness:
  assumes "exportChatDataset ev messages files p c = (files', Inr r)"
  shows "filename r = ''DatasetLoom-'' @ p @ ''-'' @ c @ ''.zip''
       \<and> filePath r = path_join ev (tmpdir ev) (filename r)
       \<and> (\<exists>convs ms.
            files' (filePath r) =
              Some (Zip [(''chat_'' @ c @ ''_dataset.json'', Obj [(''conversations'', Arr convs)]),
                         (''dataset_info.json'',
                          Obj [(''DatasetLoom'',
                            Obj [(''file_name'', Str (''chat_'' @ c @ ''_dataset.json'')),
                                 (''formatting'', Str ''sharegpt''),
                                 (''columns'', Obj [(''messages'', Str ''conversations'')])])])])
          \<and> mset ms = mset (filter (\<lambda>m. chatId m = c) messages)
          \<and> sorted (map sentAt ms)
          \<and> length convs = length (filter (\<lambda>m. chatId m = c) messages)
          \<and> list_all2
              (\<lambda>m entry. \<exists>v seg. JSON_parse ev (parts m) = Inr v \<and>
                 firstTextSegment v = Some seg \<and>
                 entry = Obj [(''from'', Str (if role m = ''user'' then ''human'' else ''gpt'')),
                              (''value'', segmentText seg)])
              ms convs)"
proof -
  let ?zp = "path_join ev (tmpdir ev) (exportFilename p c)"
  let ?ms = "sort_key sentAt (filter (\<lambda>m. chatId m = c) messages)"
  from assms have r: "r = \<lparr>filePath = ?zp, filename = exportFilename p c\<rparr>"
    and body: "exportChatDataset_try ev messages (openStream files ?zp) ?zp c = Inr files'"
    by (auto simp: exportChatDataset_def Let_def split: sum.splits)
  from body obtain convs where
    convs: "array_map (formatItem ev) ?ms = Inr convs" and
    files': "files' = (openStream files ?zp)
               (?zp \<mapsto> Zip [(datasetFilename c, Obj [(''conversations'', Arr convs)]),
                             (''dataset_info.json'', datasetInfo c)])"
    unfolding exportChatDataset_try_Inr by blast
  have all2: "list_all2 (\<lambda>m entry. formatItem ev m = Inr entry) ?ms convs"
    by (rule array_map_Inr [OF convs])
  then have len: "length convs = length (filter (\<lambda>m. chatId m = c) messages)"
    by (auto dest: list_all2_lengthD)
  have entries: "list_all2
      (\<lambda>m entry. \<exists>v seg. JSON_parse ev (parts m) = Inr v \<and>
         firstTextSegment v = Some seg \<and>
         entry = Obj [(''from'', Str (if role m = ''user'' then ''human'' else ''gpt'')),
                      (''value'', segmentText seg)])
      ?ms convs"
    by (rule list_all2_mono [OF all2]) (rule formatItem_Inr)
  have name: "filename r = ''DatasetLoom-'' @ p @ ''-'' @ c @ ''.zip''"
    and path: "filePath r = path_join ev (tmpdir ev) (filename r)"
    by (simp_all add: r exportFilename_def)
  have zip: "files' (filePath r) =
      Some (Zip [(''chat_'' @ c @ ''_dataset.json'', Obj [(''conversations'', Arr convs)]),
                 (''dataset_info.json'',
                  Obj [(''DatasetLoom'',
                    Obj [(''file_name'', Str (''chat_'' @ c @ ''_dataset.json'')),
                         (''formatting'', Str ''sharegpt''),
                         (''columns'', Obj [(''messages'', Str ''conversations'')])])])])"
    by (simp add: r files' datasetFilename_def datasetInfo_def)
  have "mset ?ms = mset (filter (\<lambda>m. chatId m = c) messages)" "sorted (map sentAt ?ms)"
    by simp_all
  with zip len entries have "\<exists>convs ms.
      files' (filePath r) =
        Some (Zip [(''chat_'' @ c @ ''_dataset.json'', Obj [(''conversations'', Arr convs)]),
                   (''dataset_info.json'',
                    Obj [(''DatasetLoom'',
                      Obj [(''file_name'', Str (''chat_'' @ c @ ''_dataset.json'')),
                           (''formatting'', Str ''sharegpt''),
                           (''columns'', Obj [(''messages'', Str ''conversations'')])])])])
      \<and> mset ms = mset (filter (\<lambda>m. chatId m = c) messages)
      \<and> sorted (map sentAt ms)
      \<and> length convs = length (filter (\<lambda>m. chatId m = c) messages)
      \<and> list_all2
          (\<lambda>m entry. \<exists>v seg. JSON_parse ev (parts m) = Inr v \<and>
             firstTextSegment v = Some seg \<and>
             entry = Obj [(''from'', Str (if role m = ''user'' then ''human'' else ''gpt'')),
                          (''value'', segmentText seg)])
          ms convs"
    by blast
  with name path show ?thesis by blast
qed

theorem export_completeness_witness:
  "exportChatDataset demo_env demo_messages Map.empty ''P'' ''C1'' =
     ([''/tmp/DatasetLoom-P-C1.zip'' \<mapsto>
         Zip [(''chat_C1_dataset.json'',
               Obj [(''conversations'',
                 Arr [Obj [(''from'', Str ''human''), (''value'', Str ''hi'')],
                      Obj [(''from'', Str ''gpt''), (''value'', Str ''hello'')]])]),
              (''dataset_info.json'', datasetInfo ''C1'')]],
      Inr \<lparr>filePath = ''/tmp/DatasetLoom-P-C1.zip'', filename = ''DatasetLoom-P-C1.zip''\<rparr>)
   \<and> filename \<lparr>filePath = ''/tmp/DatasetLoom-P-C1.zip'', filename = ''DatasetLoom-P-C1.zip''\<rparr>
       = ''DatasetLoom-'' @ ''P'' @ ''-'' @ ''C1'' @ ''.zip''"
  using export_completeness [OF demo_export] demo_export by simp


text \<open>
  C6 (export atomicity): if a step of the export fails, the destination file is deleted
  and the original error raised again, so that no archive file exists at the destination
  path afterwards. The code does raise the original error, but its cleanup can miss the
  file. Chat \<open>C3\<close> has one message, whose parts are not JSON, and the store answers
  before the write stream has opened its file: \<^verbatim>\<open>JSON.parse\<close> throws, the \<^verbatim>\<open>catch\<close> block
  unlinks a path that does not exist yet (a failure it drops), and the stream, which
  nothing closes, then opens its file. The export ends with the \<^verbatim>\<open>SyntaxError\<close> and a
  partial file at the destination path. Only when the open lands before the unlink is the
  file removed.
\<close>

theorem export_leaves_partial_file:
  "exportChatDataset demo_env demo_messages Map.empty ''P'' ''C3''
     = ([''/tmp/DatasetLoom-P-C3.zip'' \<mapsto> Partial],
        Inl (SyntaxError ''Unexpected end of JSON input''))
   \<and> fst (exportChatDataset demo_env demo_messages Map.empty ''P'' ''C3'')
         ''/tmp/DatasetLoom-P-C3.zip'' \<noteq> None
   \<and> exportChatDataset (demo_env\<lparr>openLandsFirst := True\<rparr>) demo_messages Map.empty ''P'' ''C3''
     = (Map.empty, Inl (SyntaxError ''Unexpected end of JSON input''))"
  by (simp add: export_defs demo_export_defs)

text \<open>
  C7 (malformed content). A message whose parts cannot be decoded fails to format with
  the exception of \<^verbatim>\<open>JSON.parse\<close>, and a message whose decoded parts hold no segment of
  type \<^verbatim>\<open>text\<close> fails to format with a \<^verbatim>\<open>TypeError\<close>; no entry is produced for it. A chat
  with such a message is not exported: the export raises an exception, and when the
  message query succeeded the exception is the one raised by the formatting of a message
  of the chat.
\<close>

theorem malformed_content_aborts:
  "(JSON_parse ev (parts m) = Inl e \<longrightarrow> formatItem ev m = Inl e)
   \<and> (JSON_parse ev (parts m) = Inr v \<and> firstTextSegment v = None \<longrightarrow>
        (\<exists>msg. formatItem ev m = Inl (TypeError msg)))
   \<and> (m \<in> set messages \<and> chatId m = c \<and>
        (JSON_parse ev (parts m) = Inl e \<or>
         JSON_parse ev (parts m) = Inr v \<and> firstTextSegment v = None) \<longrightarrow>
        (\<exists>e'. snd (exportChatDataset ev messages files p c) = Inl e' \<and>
               (fetchFault ev = None \<longrightarrow>
                  (\<exists>m'\<in>set messages. chatId m' = c \<and> formatItem ev m' = Inl e'))))"
proof (intro conjI impI)
  show "formatItem ev m = Inl e" if "JSON_parse ev (parts m) = Inl e"
    using that by (rule formatItem_undecodable)
  show "\<exists>msg. formatItem ev m = Inl (TypeError msg)"
    if "JSON_parse ev (parts m) = Inr v \<and> firstTextSegment v = None"
    using that formatItem_no_text by blast
next
  let ?zp = "path_join ev (tmpdir ev) (exportFilename p c)"
  let ?ms = "sort_key sentAt (filter (\<lambda>m. chatId m = c) messages)"
  assume a: "m \<in> set messages \<and> chatId m = c \<and>
        (JSON_parse ev (parts m) = Inl e \<or>
         JSON_parse ev (parts m) = Inr v \<and> firstTextSegment v = None)"
  then have fails: "\<exists>e. formatItem ev m = Inl e"
    using formatItem_undecodable formatItem_no_text by blast
  with a have "\<exists>m\<in>set messages. chatId m = c \<and> (\<exists>e. formatItem ev m = Inl e)"
    by blast
  then obtain e' where
    e': "exportChatDataset_try ev messages (openStream files ?zp) ?zp c = Inl e'"
    using exportChatDataset_try_steps by blast
  have res: "snd (exportChatDataset ev messages files p c) = Inl e'"
    by (rule exportChatDataset_raises [OF e'])
  have imp: "fetchFault ev = None \<longrightarrow>
      (\<exists>m'\<in>set messages. chatId m' = c \<and> formatItem ev m' = Inl e')"
  proof
    assume ok: "fetchFault ev = None"
    have "array_map (formatItem ev) ?ms = Inl e'"
    proof (cases "array_map (formatItem ev) ?ms")
      case (Inl x)
      with e' ok show ?thesis
        by (simp add: exportChatDataset_try_def getMessagesByChatId_def)
    next
      case (Inr ys)
      from a have "m \<in> set ?ms" by simp
      from array_map_fails [where f = "formatItem ev", OF this] fails Inr
      show ?thesis by auto
    qed
    from array_map_Inl [OF this]
    show "\<exists>m'\<in>set messages. chatId m' = c \<and> formatItem ev m' = Inl e'" by auto
  qed
  from res imp show "\<exists>e'. snd (exportChatDataset ev messages files p c) = Inl e' \<and>
      (fetchFault ev = None \<longrightarrow> (\<exists>m'\<in>set messages. chatId m' = c \<and> formatItem ev m' = Inl e'))"
    by (intro exI [of _ e'] conjI)
qed

theorem malformed_content_aborts_witness:
  "JSON_parse demo_env (parts msg_broken) = Inl (SyntaxError ''Unexpected end of JSON input'')
   \<and> formatItem demo_env msg_broken = Inl (SyntaxError ''Unexpected end of JSON input'')
   \<and> JSON_parse demo_env (parts msg_image) = Inr (Arr [Obj [(''type'', Str ''image'')]])
   \<and> firstTextSegment (Arr [Obj [(''type'', Str ''image'')]]) = None
   \<and> msg_image \<in> set demo_messages \<and> chatId msg_image = ''C2''
   \<and> (\<exists>msg. formatItem demo_env msg_image = Inl (TypeError msg))
   \<and> (\<exists>e'. snd (exportChatDataset demo_env demo_messages Map.empty ''P'' ''C2'') = Inl e')"
proof -
  let ?v = "Arr [Obj [(''type'', Str ''image'')]]"
  let ?e = "SyntaxError ''Unexpected end of JSON input''"
  have b: "JSON_parse demo_env (parts msg_broken) = Inl ?e"
    by (simp add: demo_export_defs)
  have i: "JSON_parse demo_env (parts msg_image) = Inr ?v" "firstTextSegment ?v = None"
    "msg_image \<in> set demo_messages" "chatId msg_image = ''C2''"
    by (simp_all add: demo_export_defs firstTextSegment_def isTextSegment_def)
  have "formatItem demo_env msg_broken = Inl ?e"
    using malformed_content_aborts [of demo_env msg_broken ?e] b by blast
  moreover have "\<exists>msg. formatItem demo_env msg_image = Inl (TypeError msg)"
    using malformed_content_aborts [of demo_env msg_image _ ?v] i by blast
  moreover have "\<exists>e'. snd (exportChatDataset demo_env demo_messages Map.empty ''P'' ''C2'') = Inl e'"
    using malformed_content_aborts
      [of demo_env msg_image _ ?v demo_messages "''C2''" Map.empty "''P''"] i
    by blast
  ultimately show ?thesis using b i by simp
qed

text \<open>
  C10 (empty chat). When the chat has no stored message and no call outside the service
  fails, the export succeeds: it returns the deterministic path and file name, and the
  archive at that path holds the dataset entry \<^verbatim>\<open>{"conversations": []}\<close> and the manifest.
\<close>

theorem empty_chat_exports:
  assumes "filter (\<lambda>m. chatId m = c) messages = []"
    and "fetchFault ev = None"
    and "addFault ev (datasetFilename c) = None"
    and "addFault ev ''dataset_info.json'' = None"
    and "finalizeFault ev = None"
  shows "exportChatDataset ev messages files p c =
           (files(path_join ev (tmpdir ev) (''DatasetLoom-'' @ p @ ''-'' @ c @ ''.zip'') \<mapsto>
              Zip [(''chat_'' @ c @ ''_dataset.json'', Obj [(''conversations'', Arr [])]),
                   (''dataset_info.json'',
                    Obj [(''DatasetLoom'',
                      Obj [(''file_name'', Str (''chat_'' @ c @ ''_dataset.json'')),
                           (''formatting'', Str ''sharegpt''),
                           (''columns'', Obj [(''messages'', Str ''conversations'')])])])]),
            Inr \<lparr>filePath = path_join ev (tmpdir ev) (''DatasetLoom-'' @ p @ ''-'' @ c @ ''.zip''),
                 filename = ''DatasetLoom-'' @ p @ ''-'' @ c @ ''.zip''\<rparr>)"
proof -
  let ?zp = "path_join ev (tmpdir ev) (exportFilename p c)"
  have "exportChatDataset_try ev messages (openStream files ?zp) ?zp c =
          Inr ((openStream files ?zp)
                 (?zp \<mapsto> Zip [(datasetFilename c, Obj [(''conversations'', Arr [])]),
                               (''dataset_info.json'', datasetInfo c)]))"
    unfolding exportChatDataset_try_Inr using assms by simp
  then show ?thesis
    by (simp add: exportChatDataset_def Let_def openStream_def exportFilename_def
          datasetFilename_def datasetInfo_def)
qed

theorem empty_chat_exports_witness:
  "filter (\<lambda>m. chatId m = ''C9'') demo_messages = []
   \<and> fetchFault demo_env = None
   \<and> addFault demo_env (datasetFilename ''C9'') = None
   \<and> addFault demo_env ''dataset_info.json'' = None
   \<and> finalizeFault demo_env = None
   \<and> exportChatDataset demo_env demo_messages Map.empty ''P'' ''C9'' =
       ([''/tmp/DatasetLoom-P-C9.zip'' \<mapsto>
           Zip [(''chat_C9_dataset.json'', Obj [(''conversations'', Arr [])]),
                (''dataset_info.json'',
                 Obj [(''DatasetLoom'',
                   Obj [(''file_name'', Str ''chat_C9_dataset.json''),
                        (''formatting'', Str ''sharegpt''),
                        (''columns'', Obj [(''messages'', Str ''conversations'')])])])]],
        Inr \<lparr>filePath = ''/tmp/DatasetLoom-P-C9.zip'', filename = ''DatasetLoom-P-C9.zip''\<rparr>)"
proof -
  have h: "filter (\<lambda>m. chatId m = ''C9'') demo_messages = []"
    "fetchFault demo_env = None"
    "addFault demo_env (datasetFilename ''C9'') = None"
    "addFault demo_env ''dataset_info.json'' = None"
    "finalizeFault demo_env = None"
    by (simp_all add: demo_export_defs)
  show ?thesis
    using empty_chat_exports [OF h, of Map.empty "''P''"] h
    by (simp add: demo_env_def)
qed


end
